theory Spec2Isabelle
  imports Main "HOL-Library.Word" "HOL-Library.Sublist"
begin

section \<open>The music client: data model\<close>

text \<open>
  The source is \<^verbatim>\<open>src/client.py\<close>. It runs a \<^verbatim>\<open>ClientThread\<close>, which reads user
  commands, downloads tracks and puts instructions in a queue, and a \<^verbatim>\<open>PlayerThread\<close>,
  which takes the instructions from the queue and starts a playback thread running
  \<^verbatim>\<open>play_all\<close>.

  The fields of \<^verbatim>\<open>PlayerThread\<close> are the record \<open>player\<close>. The playback thread
  object is modelled by the place where that thread stands: not created, at the head of
  the loop of \<^verbatim>\<open>play_all\<close>, blocked in \<^verbatim>\<open>wait_done\<close> of a track, returned, or dead
  from an exception nothing caught.
\<close>

datatype py_error = IndexError | AttributeError | OSError

datatype thread_state = NoThread | LoopTop | WaitDone string | Finished | Died py_error

datatype play_object = PlayObject

record player =
  playlist :: "string list"
  temp_playlist :: "string list"
  playlist_info :: bool
  playlist_end :: bool
  playback_thread :: thread_state
  thread_running :: bool
  song_name :: "string option"
  current_song :: "play_object option"
  index :: int
  update_index :: bool
  stopped :: bool
  paused :: bool

text \<open>\<^verbatim>\<open>PlayerThread.__init__\<close>.\<close>

definition init_player :: player where
  "init_player =
     \<lparr>playlist = [], temp_playlist = [], playlist_info = False, playlist_end = False,
      playback_thread = NoThread, thread_running = False, song_name = None,
      current_song = None, index = 0, update_index = True, stopped = False,
      paused = False\<rparr>"

text \<open>
  What \<^verbatim>\<open>simpleaudio.WaveObject.from_wave_file\<close> does with a file name: it gives a wave
  object, or raises one of the three exceptions \<^verbatim>\<open>play_song\<close> catches, or raises
  another one (a directory, a file without read permission).
\<close>

datatype wave_result = Playable | FileNotFoundError | WaveError | EOFError | OtherOSError

text \<open>An instruction of the queue: \<^verbatim>\<open>{'command': command, 'args': args}\<close>.\<close>

record instruction =
  command :: string
  args :: "string list"

section \<open>Python lists\<close>

text \<open>\<^verbatim>\<open>xs[i]\<close>: a negative index counts from the end, an index out of range raises.\<close>

definition py_nth :: "'a list \<Rightarrow> int \<Rightarrow> py_error + 'a" where
  "py_nth xs i =
     (if 0 \<le> i \<and> i < int (length xs) then Inr (xs ! nat i)
      else if i < 0 \<and> - int (length xs) \<le> i then Inr (xs ! nat (int (length xs) + i))
      else Inl IndexError)"

text \<open>\<^verbatim>\<open>xs.index(x)\<close>: the first position of \<open>x\<close>; \<open>None\<close> is the \<^verbatim>\<open>ValueError\<close>.\<close>

fun py_index :: "'a list \<Rightarrow> 'a \<Rightarrow> nat option" where
  "py_index [] x = None"
| "py_index (y # ys) x =
     (if y = x then Some 0 else map_option Suc (py_index ys x))"

text \<open>\<^verbatim>\<open>xs.pop(i)\<close> for an index in range: the list without position \<open>i\<close>.\<close>

definition py_pop :: "'a list \<Rightarrow> nat \<Rightarrow> 'a list" where
  "py_pop xs i = take i xs @ drop (Suc i) xs"

section \<open>The player\<close>

text \<open>The playlist in use: \<^verbatim>\<open>temp_playlist if temp_playlist else playlist\<close>.\<close>

definition current_playlist :: "player \<Rightarrow> string list" where
  "current_playlist s = (if temp_playlist s \<noteq> [] then temp_playlist s else playlist s)"

text \<open>\<^verbatim>\<open>PlayerThread.add\<close>: one \<^verbatim>\<open>append\<close> for each name.\<close>

definition add :: "player \<Rightarrow> string list \<Rightarrow> player" where
  "add s fs = foldl (\<lambda>t f. t\<lparr>playlist := playlist t @ [f]\<rparr>) s fs"

text \<open>\<^verbatim>\<open>PlayerThread.valid_index\<close>.\<close>

definition valid_index :: "player \<Rightarrow> int \<Rightarrow> bool" where
  "valid_index s amount =
     (if temp_playlist s \<noteq> []
      then 0 \<le> index s + amount \<and> index s + amount < int (length (temp_playlist s))
      else 0 \<le> index s + amount \<and> index s + amount < int (length (playlist s)))"

text \<open>\<^verbatim>\<open>PlayerThread.fix_index\<close>.\<close>

definition fix_index :: "player \<Rightarrow> nat \<Rightarrow> player" where
  "fix_index s rm_index =
     (if index s > int rm_index then s\<lparr>index := index s - 1\<rparr>
      else if index s = int rm_index then s\<lparr>update_index := False\<rparr>
      else s)"

text \<open>
  \<^verbatim>\<open>PlayerThread.remove_song\<close>: the \<^verbatim>\<open>ValueError\<close> of \<^verbatim>\<open>index\<close> is caught and
  only logged.
\<close>

definition remove_song :: "player \<Rightarrow> string \<Rightarrow> player" where
  "remove_song s filename =
     (case py_index (playlist s) filename of
        None \<Rightarrow> s
      | Some rm_index \<Rightarrow> fix_index (s\<lparr>playlist := py_pop (playlist s) rm_index\<rparr>) rm_index)"

text \<open>\<^verbatim>\<open>PlayerThread.remove\<close>.\<close>

definition remove :: "player \<Rightarrow> string list \<Rightarrow> player" where
  "remove s fs = (if fs = [] then s else foldl remove_song s fs)"

text \<open>
  \<^verbatim>\<open>play_song\<close> calls \<^verbatim>\<open>self.remove(filename)\<close> with the name itself, a string, where
  \<^verbatim>\<open>remove\<close> expects a list: the loop of \<^verbatim>\<open>remove\<close> then runs over the characters of
  the name, each a string of length one.
\<close>

definition py_iter_str :: "string \<Rightarrow> string list" where
  "py_iter_str f = map (\<lambda>c. [c]) f"

text \<open>\<^verbatim>\<open>PlayerThread.resume_song\<close>: resuming with no play object raises.\<close>

definition resume_song :: "player \<Rightarrow> py_error + player" where
  "resume_song s =
     (if paused s
      then (case current_song s of
              None \<Rightarrow> Inl AttributeError
            | Some _ \<Rightarrow> Inr (s\<lparr>paused := False\<rparr>))
      else Inr s)"

text \<open>\<^verbatim>\<open>PlayerThread.pause_song\<close>.\<close>

definition pause_song :: "player \<Rightarrow> player" where
  "pause_song s =
     (if current_song s = None then s
      else if paused s then s
      else s\<lparr>paused := True\<rparr>)"

text \<open>\<^verbatim>\<open>PlayerThread.stop\<close>.\<close>

definition stop :: "player \<Rightarrow> bool \<Rightarrow> py_error + player" where
  "stop s reset =
     (if current_song s = None then Inr s
      else (case resume_song s of
              Inl e \<Rightarrow> Inl e
            | Inr s1 \<Rightarrow>
                let s2 = s1\<lparr>stopped := True, paused := False\<rparr>
                in Inr (if reset
                        then s2\<lparr>index := 0, temp_playlist := [], playlist_info := False\<rparr>
                        else s2)))"

text \<open>
  \<^verbatim>\<open>PlayerThread.play\<close>. Its first argument is the local storage as \<^verbatim>\<open>play\<close>
  sees it: the set of the names \<open>f\<close> for which \<^verbatim>\<open>os.path.exists(SONGS_DIR + f)\<close>
  holds. \<open>start_playback\<close> is the end of \<^verbatim>\<open>play\<close>, from the test of
  \<^verbatim>\<open>playlist_info\<close> on: the new thread stands at the head of the loop of
  \<^verbatim>\<open>play_all\<close>.
\<close>

definition start_playback :: "player \<Rightarrow> player" where
  "start_playback s =
     (let s1 = (if \<not> playlist_info s then s\<lparr>playlist_info := True\<rparr> else s)
      in s1\<lparr>playback_thread := LoopTop, stopped := False, playlist_end := False,
            thread_running := True\<rparr>)"

definition play :: "string set \<Rightarrow> player \<Rightarrow> string list \<Rightarrow> player" where
  "play local s fs =
     (if thread_running s then s
      else if fs \<noteq> []
      then (let s1 = s\<lparr>temp_playlist := filter (\<lambda>x. x \<in> local) fs\<rparr>
            in if temp_playlist s1 = [] then s1
               else if playlist s1 = [] \<and> temp_playlist s1 = [] then s1
               else start_playback s1)
      else if playlist s = [] \<and> temp_playlist s = [] then s
      else start_playback s)"

section \<open>The playback thread\<close>

text \<open>
  The playback thread and the player thread run at the same time on the same fields. The
  model lets them take turns at the places where the playback thread waits: one step of
  the playback thread runs from the head of the loop of \<^verbatim>\<open>play_all\<close> to the call of
  \<^verbatim>\<open>wait_done\<close> (or, when the track does not open, through the \<^verbatim>\<open>except\<close> clause
  and the rest of the loop body back to the head, or out of the loop), and the next step
  runs from the return of \<^verbatim>\<open>wait_done\<close> back to the head of the loop. An instruction
  of the queue is handled as a whole between two such steps.
\<close>

datatype flow = Blocked player | Returned player | Raised py_error player

text \<open>The \<^verbatim>\<open>finally\<close> clause of \<^verbatim>\<open>play_song\<close>.\<close>

definition song_cleanup :: "player \<Rightarrow> player" where
  "song_cleanup s = s\<lparr>song_name := None, current_song := None\<rparr>"

text \<open>
  \<^verbatim>\<open>PlayerThread.play_song\<close> up to \<^verbatim>\<open>wait_done\<close>. \<open>audio\<close> says what opening each
  file does. \<open>Blocked\<close>: the track plays and the thread waits for it.
\<close>

definition play_song :: "(string \<Rightarrow> wave_result) \<Rightarrow> player \<Rightarrow> string \<Rightarrow> flow" where
  "play_song audio s filename =
     (case audio filename of
        Playable \<Rightarrow> Blocked (s\<lparr>song_name := Some filename, current_song := Some PlayObject\<rparr>)
      | FileNotFoundError \<Rightarrow> Returned (song_cleanup (remove_song s filename))
      | WaveError \<Rightarrow> Returned (song_cleanup (remove s (py_iter_str filename)))
      | EOFError \<Rightarrow> Returned (song_cleanup (remove s (py_iter_str filename)))
      | OtherOSError \<Rightarrow> Raised OSError (song_cleanup s))"

text \<open>The end of the loop body of \<^verbatim>\<open>play_all\<close>, after \<^verbatim>\<open>play_song\<close> has returned.\<close>

definition after_song :: "player \<Rightarrow> player" where
  "after_song s =
     (if update_index s \<and> \<not> stopped s
      then (if valid_index s 1 then s\<lparr>index := index s + 1\<rparr>
            else s\<lparr>index := 0, temp_playlist := [], playlist_info := False,
                   playlist_end := True\<rparr>)
      else s)"

text \<open>Leaving the loop of \<^verbatim>\<open>play_all\<close>: \<^verbatim>\<open>thread_running = False\<close>, and the thread ends.\<close>

definition leave_loop :: "player \<Rightarrow> player" where
  "leave_loop s = s\<lparr>thread_running := False, playback_thread := Finished\<rparr>"

text \<open>
  One step of \<^verbatim>\<open>PlayerThread.play_all\<close>. An exception that \<^verbatim>\<open>play_all\<close> does not
  catch (the \<^verbatim>\<open>IndexError\<close> of \<^verbatim>\<open>self.playlist[self.index]\<close>, or what
  \<^verbatim>\<open>play_song\<close> lets through) ends the thread before \<^verbatim>\<open>thread_running = False\<close>.
\<close>

definition play_all :: "(string \<Rightarrow> wave_result) \<Rightarrow> player \<Rightarrow> player" where
  "play_all audio s =
     (case playback_thread s of
        LoopTop \<Rightarrow>
          if playlist_end s then leave_loop s
          else (let s1 = s\<lparr>update_index := True\<rparr>
                in if stopped s1 then leave_loop s1
                   else (case py_nth (if temp_playlist s1 \<noteq> [] then temp_playlist s1
                                      else playlist s1) (index s1) of
                           Inl e \<Rightarrow> s1\<lparr>playback_thread := Died e\<rparr>
                         | Inr filename \<Rightarrow>
                             (case play_song audio s1 filename of
                                Blocked s2 \<Rightarrow> s2\<lparr>playback_thread := WaitDone filename\<rparr>
                              | Returned s2 \<Rightarrow> after_song s2
                              | Raised e s2 \<Rightarrow> s2\<lparr>playback_thread := Died e\<rparr>)))
      | WaitDone filename \<Rightarrow> (after_song (song_cleanup s))\<lparr>playback_thread := LoopTop\<rparr>
      | _ \<Rightarrow> s)"

text \<open>
  \<^verbatim>\<open>playback_thread.join()\<close>: the caller waits until the playback thread has ended.
  \<open>None\<close>: it never ends.
\<close>

partial_function (option) thread_join :: "(string \<Rightarrow> wave_result) \<Rightarrow> player \<Rightarrow> player option" where
  "thread_join audio s =
     (case playback_thread s of
        LoopTop \<Rightarrow> thread_join audio (play_all audio s)
      | WaitDone filename \<Rightarrow> thread_join audio (play_all audio s)
      | _ \<Rightarrow> Some s)"

text \<open>
  \<^verbatim>\<open>PlayerThread.switch_song\<close>. \<open>None\<close>: the call never returns. \<open>Inl\<close>: it raises,
  which ends the player thread.
\<close>

definition switch_song ::
  "string set \<Rightarrow> (string \<Rightarrow> wave_result) \<Rightarrow> player \<Rightarrow> int \<Rightarrow> (py_error + player) option" where
  "switch_song local audio s amount =
     (if current_song s = None then Some (Inr s)
      else if \<not> valid_index s amount then Some (Inr s)
      else (case stop s False of
              Inl e \<Rightarrow> Some (Inl e)
            | Inr s1 \<Rightarrow>
                if playback_thread s1 = NoThread then Some (Inl AttributeError)
                else (case thread_join audio s1 of
                        None \<Rightarrow> None
                      | Some s2 \<Rightarrow>
                          Some (Inr (play local
                            (s2\<lparr>index := index s2 + (if update_index s2 then amount else 0)\<rparr>)
                            [])))))"

text \<open>The body of the loop of \<^verbatim>\<open>PlayerThread.run\<close> for one instruction of the queue.\<close>

definition run :: "string set \<Rightarrow> (string \<Rightarrow> wave_result) \<Rightarrow> player \<Rightarrow> instruction
    \<Rightarrow> (py_error + player) option" where
  "run local audio s ins =
     (if command ins = ''add'' then Some (Inr (add s (args ins)))
      else if command ins = ''play''
      then (if paused s then Some (resume_song s) else Some (Inr (play local s (args ins))))
      else if command ins = ''stop'' then Some (stop s True)
      else if command ins = ''pause'' then Some (Inr (pause_song s))
      else if command ins = ''resume'' then Some (resume_song s)
      else if command ins = ''prev'' then switch_song local audio s (- 1)
      else if command ins = ''next'' \<or> command ins = ''skip'' then switch_song local audio s 1
      else if command ins = ''del'' \<or> command ins = ''rm'' then Some (Inr (remove s (args ins)))
      else Some (Inr s))"

text \<open>
  The states the player can be in: \<^verbatim>\<open>main\<close> adds the listing of the songs directory to
  a new player; then the player thread handles instructions, each with the local storage
  and the audio files of that moment, and the playback thread takes its steps.
\<close>

inductive reachable :: "player \<Rightarrow> bool" where
  start: "reachable (add init_player listing)"
| instr: "reachable s \<Longrightarrow> run local audio s ins = Some (Inr s') \<Longrightarrow> reachable s'"
| playback: "reachable s \<Longrightarrow> reachable (play_all audio s)"

section \<open>The client: downloading\<close>

text \<open>
  \<^verbatim>\<open>ClientThread.download\<close> talks to the server over a request-reply socket and
  writes into the songs directory. The record \<open>client\<close> holds what it works on: the
  files under the songs directory (from the name \<open>f\<close>, for which
  \<^verbatim>\<open>os.path.exists(SONGS_DIR + f)\<close> holds, to the content), the names that can be opened
  for appending, the replies the server is going to give, in order, and the messages
  that have passed on the socket so far, oldest first.

  \<^verbatim>\<open>open(SONGS_DIR + f, 'ab')\<close> does not succeed for every name: it raises
  \<^verbatim>\<open>FileNotFoundError\<close>, an \<^verbatim>\<open>OSError\<close>, when the directory part of the name does not
  exist (\<^verbatim>\<open>sub/x.wav\<close> with no directory \<^verbatim>\<open>songs/sub\<close>), and other \<^verbatim>\<open>OSError\<close>s
  when the file system refuses. \<open>can_open\<close> says for which names it succeeds.
\<close>

type_synonym bytes = "8 word list"

datatype message = SendJson string string | SendString string | Recv bytes

record client =
  files :: "string \<rightharpoonup> bytes"
  can_open :: "string \<Rightarrow> bool"
  incoming :: "bytes list"
  passed :: "message list"

text \<open>\<^verbatim>\<open>socket.send_json({'command': c, 'args': a})\<close> and \<^verbatim>\<open>socket.send_string\<close>.\<close>

definition send_json :: "client \<Rightarrow> string \<Rightarrow> string \<Rightarrow> client" where
  "send_json c cmd a = c\<lparr>passed := passed c @ [SendJson cmd a]\<rparr>"

definition send_string :: "client \<Rightarrow> string \<Rightarrow> client" where
  "send_string c m = c\<lparr>passed := passed c @ [SendString m]\<rparr>"

text \<open>\<^verbatim>\<open>socket.recv()\<close>. \<open>None\<close>: no reply ever comes, and the call does not return.\<close>

definition recv :: "client \<Rightarrow> (bytes \<times> client) option" where
  "recv c =
     (case incoming c of
        [] \<Rightarrow> None
      | d # ds \<Rightarrow> Some (d, c\<lparr>incoming := ds, passed := passed c @ [Recv d]\<rparr>))"

text \<open>
  \<^verbatim>\<open>open(name, 'ab')\<close> raises when the name cannot be opened; otherwise it creates the
  file when there is none and keeps its content when there is one. \<^verbatim>\<open>file.write\<close>
  then appends.
\<close>

definition open_ab :: "client \<Rightarrow> string \<Rightarrow> py_error + client" where
  "open_ab c filename =
     (if can_open c filename
      then Inr (c\<lparr>files := (files c)(filename \<mapsto>
                   (case files c filename of None \<Rightarrow> [] | Some b \<Rightarrow> b))\<rparr>)
      else Inl OSError)"

definition file_write :: "client \<Rightarrow> string \<Rightarrow> bytes \<Rightarrow> client" where
  "file_write c filename data =
     c\<lparr>files := (files c)(filename \<mapsto> (case files c filename of None \<Rightarrow> [] | Some b \<Rightarrow> b) @ data)\<rparr>"

text \<open>
  The inner loop of \<^verbatim>\<open>download\<close>, \<^verbatim>\<open>while data := self.socket.recv()\<close>. Its second
  argument is \<open>incoming c\<close>, on which it recurses.
\<close>

fun recv_chunks :: "string \<Rightarrow> bytes list \<Rightarrow> client \<Rightarrow> client option" where
  "recv_chunks filename [] c = None"
| "recv_chunks filename (d # ds) c =
     (let c1 = c\<lparr>incoming := ds, passed := passed c @ [Recv d]\<rparr>
      in if d \<noteq> [] then recv_chunks filename ds (send_string (file_write c1 filename d) ''ok'')
         else Some c1)"

text \<open>
  The body of the outer loop of \<^verbatim>\<open>download\<close> for one name. \<open>None\<close>: a reply never
  comes and the call does not return. \<open>Inl\<close>: \<^verbatim>\<open>open\<close> raises, with the client as it
  is then; \<^verbatim>\<open>download\<close> has no handler, so the exception leaves it. \<open>Inr\<close>: the body
  is done, and the boolean says whether the name is appended to \<^verbatim>\<open>new_args\<close>.
\<close>

definition download_song :: "client \<Rightarrow> string \<Rightarrow> (py_error \<times> client + client \<times> bool) option" where
  "download_song c filename =
     (if files c filename \<noteq> None then Some (Inr (c, True))
      else (case recv (send_json c ''down'' filename) of
              None \<Rightarrow> None
            | Some (data, c1) \<Rightarrow>
                if data \<noteq> []
                then (case open_ab c1 filename of
                        Inl e \<Rightarrow> Some (Inl (e, c1))
                      | Inr c2 \<Rightarrow>
                          (let c3 = send_string (file_write c2 filename data) ''ok''
                           in map_option (\<lambda>c4. Inr (c4, True))
                                (recv_chunks filename (incoming c3) c3)))
                else Some (Inr (c1, False))))"

fun download_loop :: "client \<Rightarrow> string list \<Rightarrow> string list
    \<Rightarrow> (py_error \<times> client + client \<times> string list) option" where
  "download_loop c [] new_args = Some (Inr (c, new_args))"
| "download_loop c (filename # rest) new_args =
     (case download_song c filename of
        None \<Rightarrow> None
      | Some (Inl r) \<Rightarrow> Some (Inl r)
      | Some (Inr (c1, ok)) \<Rightarrow>
          download_loop c1 rest (if ok then new_args @ [filename] else new_args))"

text \<open>
  \<^verbatim>\<open>ClientThread.download\<close>. \<open>Inr\<close>: it returns the list \<^verbatim>\<open>new_args\<close>. \<open>Inl\<close>: it
  raises and returns no list.
\<close>

definition download :: "client \<Rightarrow> string list
    \<Rightarrow> (py_error \<times> client + client \<times> string list) option" where
  "download c fs = download_loop c fs []"

section \<open>Startup\<close>

text \<open>
  \<^verbatim>\<open>main\<close> up to \<^verbatim>\<open>player.add(os.listdir(SONGS_DIR))\<close>. The path \<^verbatim>\<open>songs/\<close> is absent,
  or a directory with its entries in the order \<^verbatim>\<open>os.listdir\<close> gives them, or something
  that is not a directory.
\<close>

datatype songs_dir = Absent | Directory "string list" | NotADirectory

datatype os_error = FileExistsError | NotADirectoryError | NoSuchDirectory

text \<open>\<^verbatim>\<open>pathlib.Path(SONGS_DIR).mkdir(exist_ok=True)\<close>.\<close>

definition mkdir_exist_ok :: "songs_dir \<Rightarrow> os_error + songs_dir" where
  "mkdir_exist_ok d =
     (case d of
        Absent \<Rightarrow> Inr (Directory [])
      | Directory es \<Rightarrow> Inr (Directory es)
      | NotADirectory \<Rightarrow> Inl FileExistsError)"

text \<open>\<^verbatim>\<open>os.listdir(SONGS_DIR)\<close>.\<close>

definition listdir :: "songs_dir \<Rightarrow> os_error + string list" where
  "listdir d =
     (case d of
        Absent \<Rightarrow> Inl NoSuchDirectory
      | Directory es \<Rightarrow> Inr es
      | NotADirectory \<Rightarrow> Inl NotADirectoryError)"

definition main :: "songs_dir \<Rightarrow> os_error + songs_dir \<times> player" where
  "main d =
     (case mkdir_exist_ok d of
        Inl e \<Rightarrow> Inl e
      | Inr d1 \<Rightarrow>
          (case listdir d1 of
             Inl e \<Rightarrow> Inl e
           | Inr listing \<Rightarrow> Inr (d1, add init_player listing)))"

text \<open>The player thread handling a list of instructions, stopping where one raises.\<close>

fun run_all :: "string set \<Rightarrow> (string \<Rightarrow> wave_result) \<Rightarrow> player \<Rightarrow> instruction list
    \<Rightarrow> (py_error + player) option" where
  "run_all local audio s [] = Some (Inr s)"
| "run_all local audio s (ins # rest) =
     (case run local audio s ins of
        Some (Inr s1) \<Rightarrow> run_all local audio s1 rest
      | r \<Rightarrow> r)"

section \<open>Consistency of the player\<close>

text \<open>
  What the instructions and the steps of the playback thread keep true between them, used
  for the properties below: a temporary playlist only exists while a playback thread runs
  that has neither reached the end nor been stopped; a play object only exists while the
  playback thread waits for a track; and a playback thread inside the loop of
  \<^verbatim>\<open>play_all\<close> has \<^verbatim>\<open>thread_running\<close> set.
\<close>

fun waiting :: "thread_state \<Rightarrow> bool" where
  "waiting (WaitDone f) = True"
| "waiting _ = False"

definition consistent :: "player \<Rightarrow> bool" where
  "consistent s \<longleftrightarrow>
     (temp_playlist s \<noteq> [] \<longrightarrow> thread_running s \<and> \<not> playlist_end s \<and> \<not> stopped s) \<and>
     (current_song s \<noteq> None \<longrightarrow> waiting (playback_thread s)) \<and>
     (playback_thread s = LoopTop \<or> waiting (playback_thread s) \<longrightarrow> thread_running s)"

section \<open>Properties of the list operations\<close>

lemma add_playlist: "add s fs = s\<lparr>playlist := playlist s @ fs\<rparr>"
  unfolding add_def by (induction fs arbitrary: s) simp_all

lemma py_index_None: "py_index xs x = None \<longleftrightarrow> x \<notin> set xs"
  by (induction xs) auto

lemma py_index_Some:
  "py_index xs x = Some i \<Longrightarrow> i < length xs \<and> xs ! i = x \<and> (\<forall>j<i. xs ! j \<noteq> x)"
proof (induction xs arbitrary: i)
  case Nil
  then show ?case by simp
next
  case (Cons y ys)
  show ?case
  proof (cases "y = x")
    case True
    with Cons.prems show ?thesis by simp
  next
    case False
    with Cons.prems obtain k where k: "py_index ys x = Some k" "i = Suc k"
      by auto
    from Cons.IH [OF k(1)] False k(2) show ?thesis
      by (auto simp: nth_Cons split: nat.splits)
  qed
qed

section \<open>Adding and removing\<close>

text \<open>
  Claim C9. For every sequence of batches added one after the other, the playlist at the
  end is the playlist at the start followed by the batches in the order they came, with
  every duplicate kept, and no other field of the player has changed. From the player as
  \<^verbatim>\<open>__init__\<close> makes it, the playlist is the concatenation of the batches.
\<close>

theorem add_batches_concat:
  "run_all local audio s (map (\<lambda>b. \<lparr>command = ''add'', args = b\<rparr>) batches)
     = Some (Inr (s\<lparr>playlist := playlist s @ concat batches\<rparr>))
   \<and> run_all local audio init_player (map (\<lambda>b. \<lparr>command = ''add'', args = b\<rparr>) batches)
     = Some (Inr (init_player\<lparr>playlist := concat batches\<rparr>))"
proof -
  have "run_all local audio u (map (\<lambda>b. \<lparr>command = ''add'', args = b\<rparr>) batches)
     = Some (Inr (u\<lparr>playlist := playlist u @ concat batches\<rparr>))" for u
    by (induction batches arbitrary: u) (simp_all add: run_def add_playlist)
  from this [of s] this [of init_player] show ?thesis
    by (simp add: init_player_def)
qed

text \<open>
  Claim C4. Removing a track that is not in the playlist changes nothing, the index
  included. Removing a track that is in the playlist takes out its first occurrence and
  nothing else, and the index goes down by one exactly when the position taken out is
  before the index.
\<close>

theorem remove_first_occurrence:
  "(t \<notin> set (playlist s) \<longrightarrow> remove s [t] = s) \<and>
   (t \<in> set (playlist s) \<longrightarrow>
      (\<exists>rm < length (playlist s).
         playlist s ! rm = t \<and> (\<forall>j<rm. playlist s ! j \<noteq> t) \<and>
         playlist (remove s [t]) = take rm (playlist s) @ drop (Suc rm) (playlist s) \<and>
         temp_playlist (remove s [t]) = temp_playlist s \<and>
         (int rm < index s \<longrightarrow> index (remove s [t]) = index s - 1) \<and>
         (\<not> int rm < index s \<longrightarrow> index (remove s [t]) = index s)))"
proof (intro conjI impI)
  assume "t \<notin> set (playlist s)"
  then have "py_index (playlist s) t = None" by (simp add: py_index_None)
  then show "remove s [t] = s" by (simp add: remove_def remove_song_def)
next
  assume "t \<in> set (playlist s)"
  then obtain rm where rm: "py_index (playlist s) t = Some rm"
    using py_index_None [of "playlist s" t] by auto
  from py_index_Some [OF rm] rm show "\<exists>rm < length (playlist s).
         playlist s ! rm = t \<and> (\<forall>j<rm. playlist s ! j \<noteq> t) \<and>
         playlist (remove s [t]) = take rm (playlist s) @ drop (Suc rm) (playlist s) \<and>
         temp_playlist (remove s [t]) = temp_playlist s \<and>
         (int rm < index s \<longrightarrow> index (remove s [t]) = index s - 1) \<and>
         (\<not> int rm < index s \<longrightarrow> index (remove s [t]) = index s)"
    by (intro exI [of _ rm]) (simp add: remove_def remove_song_def fix_index_def py_pop_def)
qed

theorem remove_first_occurrence_witness:
  "''c'' \<notin> set (playlist (init_player\<lparr>playlist := [''b'', ''a'', ''a''], index := 2\<rparr>))
   \<and> remove (init_player\<lparr>playlist := [''b'', ''a'', ''a''], index := 2\<rparr>) [''c'']
       = init_player\<lparr>playlist := [''b'', ''a'', ''a''], index := 2\<rparr>
   \<and> ''a'' \<in> set (playlist (init_player\<lparr>playlist := [''b'', ''a'', ''a''], index := 2\<rparr>))
   \<and> playlist (remove (init_player\<lparr>playlist := [''b'', ''a'', ''a''], index := 2\<rparr>) [''a''])
       = [''b'', ''a'']
   \<and> index (remove (init_player\<lparr>playlist := [''b'', ''a'', ''a''], index := 2\<rparr>) [''a'']) = 1"
  using remove_first_occurrence
      [of "''c''" "init_player\<lparr>playlist := [''b'', ''a'', ''a''], index := 2\<rparr>"]
    remove_first_occurrence
      [of "''a''" "init_player\<lparr>playlist := [''b'', ''a'', ''a''], index := 2\<rparr>"]
  by (simp add: init_player_def remove_def remove_song_def fix_index_def py_pop_def)

section \<open>Switching tracks\<close>

text \<open>
  Claim C5. When the index moved by the amount (one forward for next, one back for prev)
  is outside the playlist in use, switching does nothing: the player is left as it was,
  index, both playlists and session fields, and the index does not wrap around.
\<close>

theorem switch_song_out_of_bounds:
  assumes "\<not> (0 \<le> index s + amount \<and> index s + amount < int (length (current_playlist s)))"
  shows "switch_song local audio s amount = Some (Inr s)
    \<and> (amount = 1 \<longrightarrow>
         run local audio s \<lparr>command = ''next'', args = a\<rparr> = Some (Inr s)
         \<and> run local audio s \<lparr>command = ''skip'', args = a\<rparr> = Some (Inr s))
    \<and> (amount = - 1 \<longrightarrow>
         run local audio s \<lparr>command = ''prev'', args = a\<rparr> = Some (Inr s))"
  using assms by (auto simp: switch_song_def valid_index_def current_playlist_def run_def)

theorem switch_song_out_of_bounds_witness:
  "\<not> (0 \<le> index (init_player\<lparr>playlist := [''a'', ''b''], current_song := Some PlayObject,
            index := 1\<rparr>) + 1
       \<and> index (init_player\<lparr>playlist := [''a'', ''b''], current_song := Some PlayObject,
            index := 1\<rparr>) + 1
         < int (length (current_playlist (init_player\<lparr>playlist := [''a'', ''b''],
            current_song := Some PlayObject, index := 1\<rparr>))))
   \<and> run {} (\<lambda>f. Playable)
        (init_player\<lparr>playlist := [''a'', ''b''], current_song := Some PlayObject, index := 1\<rparr>)
        \<lparr>command = ''next'', args = []\<rparr>
      = Some (Inr (init_player\<lparr>playlist := [''a'', ''b''], current_song := Some PlayObject,
            index := 1\<rparr>))"
proof -
  let ?s = "init_player\<lparr>playlist := [''a'', ''b''], current_song := Some PlayObject,
      index := 1\<rparr>"
  have h: "\<not> (0 \<le> index ?s + 1 \<and> index ?s + 1 < int (length (current_playlist ?s)))"
    by (simp add: init_player_def current_playlist_def)
  from switch_song_out_of_bounds [OF h, of "{}" "\<lambda>f. Playable" "[]"] h show ?thesis
    by simp
qed

section \<open>Removing the track that is playing\<close>

text \<open>
  Claim C2. The main playlist is in use and the playback thread waits for the track at
  the index. When that track is removed (its first occurrence is the one at the index),
  \<^verbatim>\<open>update_index\<close> is cleared and the index stays; when the track then ends, the step
  of the playback thread leaves the index where it is and goes back to the head of the
  loop; and when a track followed the removed one, the next step plays that track, the
  one that has moved into the removed position.
\<close>

theorem remove_playing_track_not_skipped:
  assumes main: "temp_playlist s = []"
    and playing: "playback_thread s = WaitDone t"
    and at_index: "0 \<le> index s" "py_index (playlist s) t = Some (nat (index s))"
    and running: "\<not> stopped s" "\<not> playlist_end s"
  shows "playlist s ! nat (index s) = t
    \<and> \<not> update_index (remove s [t])
    \<and> index (remove s [t]) = index s
    \<and> index (play_all audio (remove s [t])) = index s
    \<and> playback_thread (play_all audio (remove s [t])) = LoopTop
    \<and> (Suc (nat (index s)) < length (playlist s)
         \<and> audio' (playlist s ! Suc (nat (index s))) = Playable \<longrightarrow>
        playback_thread (play_all audio' (play_all audio (remove s [t])))
          = WaitDone (playlist s ! Suc (nat (index s)))
        \<and> song_name (play_all audio' (play_all audio (remove s [t])))
          = Some (playlist s ! Suc (nat (index s)))
        \<and> index (play_all audio' (play_all audio (remove s [t]))) = index s)"
proof -
  let ?i = "nat (index s)"
  let ?r = "remove s [t]"
  from py_index_Some [OF at_index(2)]
  have len: "?i < length (playlist s)" and nth: "playlist s ! ?i = t" by simp_all
  have r: "?r = s\<lparr>playlist := py_pop (playlist s) ?i, update_index := False\<rparr>"
    using at_index by (simp add: remove_def remove_song_def fix_index_def)
  have p1: "play_all audio ?r
      = s\<lparr>playlist := py_pop (playlist s) ?i, update_index := False,
           song_name := None, current_song := None, playback_thread := LoopTop\<rparr>"
    using playing by (simp add: r play_all_def song_cleanup_def after_song_def)
  have shifted: "Suc ?i < length (playlist s) \<Longrightarrow>
      py_nth (py_pop (playlist s) ?i) (index s) = Inr (playlist s ! Suc ?i)"
    using at_index(1) by (simp add: py_nth_def py_pop_def nth_append min_def)
  have p2: "Suc ?i < length (playlist s) \<Longrightarrow> audio' (playlist s ! Suc ?i) = Playable \<Longrightarrow>
      play_all audio' (play_all audio ?r)
        = s\<lparr>playlist := py_pop (playlist s) ?i, update_index := True,
             song_name := Some (playlist s ! Suc ?i), current_song := Some PlayObject,
             playback_thread := WaitDone (playlist s ! Suc ?i)\<rparr>"
    using running main shifted unfolding p1 by (simp add: play_all_def play_song_def)
  show ?thesis
    using nth r p1 p2 by simp
qed

theorem remove_playing_track_not_skipped_witness:
  "py_index (playlist (init_player\<lparr>playlist := [''a'', ''b'', ''c''],
       playback_thread := WaitDone ''b'', thread_running := True, song_name := Some ''b'',
       current_song := Some PlayObject, index := 1\<rparr>)) ''b'' = Some 1
   \<and> \<not> update_index (remove (init_player\<lparr>playlist := [''a'', ''b'', ''c''],
       playback_thread := WaitDone ''b'', thread_running := True, song_name := Some ''b'',
       current_song := Some PlayObject, index := 1\<rparr>) [''b''])
   \<and> playback_thread (play_all (\<lambda>f. Playable) (play_all (\<lambda>f. Playable)
       (remove (init_player\<lparr>playlist := [''a'', ''b'', ''c''],
       playback_thread := WaitDone ''b'', thread_running := True, song_name := Some ''b'',
       current_song := Some PlayObject, index := 1\<rparr>) [''b'']))) = WaitDone ''c''
   \<and> index (play_all (\<lambda>f. Playable) (play_all (\<lambda>f. Playable)
       (remove (init_player\<lparr>playlist := [''a'', ''b'', ''c''],
       playback_thread := WaitDone ''b'', thread_running := True, song_name := Some ''b'',
       current_song := Some PlayObject, index := 1\<rparr>) [''b'']))) = 1"
proof -
  let ?s = "init_player\<lparr>playlist := [''a'', ''b'', ''c''],
       playback_thread := WaitDone ''b'', thread_running := True, song_name := Some ''b'',
       current_song := Some PlayObject, index := 1\<rparr>"
  have h1: "temp_playlist ?s = []" and h2: "playback_thread ?s = WaitDone ''b''"
    and h3: "0 \<le> index ?s" and h4: "py_index (playlist ?s) ''b'' = Some (nat (index ?s))"
    and h5: "\<not> stopped ?s" and h6: "\<not> playlist_end ?s"
    by (simp_all add: init_player_def)
  from remove_playing_track_not_skipped
    [OF h1 h2 h3 h4 h5 h6, of "\<lambda>f. Playable" "\<lambda>f. Playable"] h4
  show ?thesis by simp
qed

text \<open>
  Claim C1. The index does not always stay inside the playlist in use. From the start
  with the listing \<open>a, b\<close>: play, \<open>a\<close> plays to its end, \<open>b\<close> plays, and \<open>b\<close> is
  removed while it plays. \<^verbatim>\<open>fix_index\<close> only clears \<^verbatim>\<open>update_index\<close>, so the index is
  still 1 while the playlist has the single track \<open>a\<close>. When \<open>b\<close> ends, the playback
  thread reads \<^verbatim>\<open>self.playlist[1]\<close>, which raises \<^verbatim>\<open>IndexError\<close>: the thread dies
  and \<^verbatim>\<open>thread_running\<close> stays true.
\<close>

theorem remove_last_playing_breaks_index:
  "reachable \<lparr>playlist = [''a''], temp_playlist = [], playlist_info = True,
      playlist_end = False, playback_thread = WaitDone ''b'', thread_running = True,
      song_name = Some ''b'', current_song = Some PlayObject, index = 1,
      update_index = False, stopped = False, paused = False\<rparr>
   \<and> play_all (\<lambda>f. Playable) (play_all (\<lambda>f. Playable)
       \<lparr>playlist = [''a''], temp_playlist = [], playlist_info = True,
        playlist_end = False, playback_thread = WaitDone ''b'', thread_running = True,
        song_name = Some ''b'', current_song = Some PlayObject, index = 1,
        update_index = False, stopped = False, paused = False\<rparr>)
     = \<lparr>playlist = [''a''], temp_playlist = [], playlist_info = True,
        playlist_end = False, playback_thread = Died IndexError, thread_running = True,
        song_name = None, current_song = None, index = 1,
        update_index = True, stopped = False, paused = False\<rparr>"
proof -
  let ?au = "\<lambda>f::string. Playable"
  let ?s0 = "add init_player [''a'', ''b'']"
  let ?s1 = "\<lparr>playlist = [''a'', ''b''], temp_playlist = [], playlist_info = True,
      playlist_end = False, playback_thread = LoopTop, thread_running = True,
      song_name = None, current_song = None, index = 0,
      update_index = True, stopped = False, paused = False\<rparr>"
  let ?s2 = "?s1\<lparr>playback_thread := WaitDone ''a'', song_name := Some ''a'',
      current_song := Some PlayObject\<rparr>"
  let ?s3 = "?s1\<lparr>index := 1\<rparr>"
  let ?s4 = "?s3\<lparr>playback_thread := WaitDone ''b'', song_name := Some ''b'',
      current_song := Some PlayObject\<rparr>"
  let ?s5 = "?s4\<lparr>playlist := [''a''], update_index := False\<rparr>"
  have r0: "reachable ?s0" by (rule reachable.start)
  have "run {} ?au ?s0 \<lparr>command = ''play'', args = []\<rparr> = Some (Inr ?s1)"
    by (simp add: run_def add_playlist init_player_def play_def start_playback_def)
  from reachable.instr [OF r0 this] have r1: "reachable ?s1" .
  have "play_all ?au ?s1 = ?s2"
    by (simp add: play_all_def py_nth_def play_song_def)
  with reachable.playback [OF r1, of ?au] have r2: "reachable ?s2" by simp
  have "play_all ?au ?s2 = ?s3"
    by (simp add: play_all_def song_cleanup_def after_song_def valid_index_def)
  with reachable.playback [OF r2, of ?au] have r3: "reachable ?s3" by simp
  have "play_all ?au ?s3 = ?s4"
    by (simp add: play_all_def py_nth_def play_song_def)
  with reachable.playback [OF r3, of ?au] have r4: "reachable ?s4" by simp
  have "run {} ?au ?s4 \<lparr>command = ''rm'', args = [''b'']\<rparr> = Some (Inr ?s5)"
    by (simp add: run_def remove_def remove_song_def py_pop_def fix_index_def)
  from reachable.instr [OF r4 this] have r5: "reachable ?s5" .
  have d: "play_all ?au (play_all ?au ?s5) = ?s5\<lparr>playback_thread := Died IndexError,
      song_name := None, current_song := None, update_index := True\<rparr>"
    by (simp add: play_all_def song_cleanup_def after_song_def py_nth_def)
  from r5 d show ?thesis by simp
qed

section \<open>Tracks that do not play\<close>

text \<open>
  Claim C3. A track that is not a wave file is not removed. The playback thread is at the
  head of the loop with the playlist \<open>x.mp3, b.wav\<close> and the index 0, and opening
  \<open>x.mp3\<close> raises \<^verbatim>\<open>wave.Error\<close>. The \<^verbatim>\<open>except\<close> clause calls \<^verbatim>\<open>self.remove\<close> with the
  name, a string, so \<^verbatim>\<open>remove\<close> looks for the one-character names \<open>x\<close>, \<open>.\<close>, \<open>m\<close>,
  \<open>p\<close>, \<open>3\<close>: the playlist keeps \<open>x.mp3\<close> and the index moves on to 1. Where opening
  raises \<^verbatim>\<open>FileNotFoundError\<close> instead, the clause calls \<^verbatim>\<open>remove_song\<close> and the track
  goes.
\<close>

theorem unplayable_track_stays:
  "reachable
      \<lparr>playlist = [''x.mp3'', ''b.wav''], temp_playlist = [], playlist_info = True,
       playlist_end = False, playback_thread = LoopTop, thread_running = True,
       song_name = None, current_song = None, index = 0,
       update_index = True, stopped = False, paused = False\<rparr>
   \<and> play_all (\<lambda>f. if f = ''x.mp3'' then WaveError else Playable)
      \<lparr>playlist = [''x.mp3'', ''b.wav''], temp_playlist = [], playlist_info = True,
       playlist_end = False, playback_thread = LoopTop, thread_running = True,
       song_name = None, current_song = None, index = 0,
       update_index = True, stopped = False, paused = False\<rparr>
    = \<lparr>playlist = [''x.mp3'', ''b.wav''], temp_playlist = [], playlist_info = True,
       playlist_end = False, playback_thread = LoopTop, thread_running = True,
       song_name = None, current_song = None, index = 1,
       update_index = True, stopped = False, paused = False\<rparr>
   \<and> play_all (\<lambda>f. if f = ''x.mp3'' then FileNotFoundError else Playable)
      \<lparr>playlist = [''x.mp3'', ''b.wav''], temp_playlist = [], playlist_info = True,
       playlist_end = False, playback_thread = LoopTop, thread_running = True,
       song_name = None, current_song = None, index = 0,
       update_index = True, stopped = False, paused = False\<rparr>
    = \<lparr>playlist = [''b.wav''], temp_playlist = [], playlist_info = True,
       playlist_end = False, playback_thread = LoopTop, thread_running = True,
       song_name = None, current_song = None, index = 0,
       update_index = False, stopped = False, paused = False\<rparr>"
proof -
  let ?s1 = "\<lparr>playlist = [''x.mp3'', ''b.wav''], temp_playlist = [], playlist_info = True,
       playlist_end = False, playback_thread = LoopTop, thread_running = True,
       song_name = None, current_song = None, index = 0,
       update_index = True, stopped = False, paused = False\<rparr>"
  have r0: "reachable (add init_player [''x.mp3'', ''b.wav''])" by (rule reachable.start)
  have "run {} (\<lambda>f. Playable) (add init_player [''x.mp3'', ''b.wav''])
      \<lparr>command = ''play'', args = []\<rparr> = Some (Inr ?s1)"
    by (simp add: run_def add_playlist init_player_def play_def start_playback_def)
  from reachable.instr [OF r0 this] have r1: "reachable ?s1" .
  have w: "play_all (\<lambda>f. if f = ''x.mp3'' then WaveError else Playable) ?s1
      = ?s1\<lparr>index := 1\<rparr>"
    by (simp add: play_all_def py_nth_def play_song_def remove_def remove_song_def
        py_iter_str_def song_cleanup_def after_song_def valid_index_def)
  have n: "play_all (\<lambda>f. if f = ''x.mp3'' then FileNotFoundError else Playable) ?s1
      = ?s1\<lparr>playlist := [''b.wav''], update_index := False\<rparr>"
    by (simp add: play_all_def py_nth_def play_song_def remove_song_def py_pop_def
        fix_index_def song_cleanup_def after_song_def)
  from r1 w n show ?thesis by simp
qed

section \<open>The consistency is kept\<close>

lemma remove_song_fields:
  "temp_playlist (remove_song s f) = temp_playlist s"
  "thread_running (remove_song s f) = thread_running s"
  "playlist_end (remove_song s f) = playlist_end s"
  "stopped (remove_song s f) = stopped s"
  "current_song (remove_song s f) = current_song s"
  "playback_thread (remove_song s f) = playback_thread s"
  by (simp_all add: remove_song_def fix_index_def split: option.splits)

lemma consistent_remove_song: "consistent s \<Longrightarrow> consistent (remove_song s f)"
  by (simp add: consistent_def remove_song_fields)

lemma consistent_foldl_remove_song:
  "consistent s \<Longrightarrow> consistent (foldl remove_song s fs)"
  by (induction fs arbitrary: s) (simp_all add: consistent_remove_song)

lemma foldl_remove_song_fields:
  "temp_playlist (foldl remove_song s fs) = temp_playlist s"
  "thread_running (foldl remove_song s fs) = thread_running s"
  "playlist_end (foldl remove_song s fs) = playlist_end s"
  "stopped (foldl remove_song s fs) = stopped s"
  "current_song (foldl remove_song s fs) = current_song s"
  "playback_thread (foldl remove_song s fs) = playback_thread s"
  by (induction fs arbitrary: s) (simp_all add: remove_song_fields)

lemma remove_fields:
  "temp_playlist (remove s fs) = temp_playlist s"
  "thread_running (remove s fs) = thread_running s"
  "playlist_end (remove s fs) = playlist_end s"
  "stopped (remove s fs) = stopped s"
  "current_song (remove s fs) = current_song s"
  "playback_thread (remove s fs) = playback_thread s"
  by (simp_all add: remove_def foldl_remove_song_fields)

lemma consistent_remove: "consistent s \<Longrightarrow> consistent (remove s fs)"
  by (simp add: consistent_def remove_fields)

lemma consistent_add: "consistent s \<Longrightarrow> consistent (add s fs)"
  by (simp add: consistent_def add_playlist)

lemma consistent_play: "consistent s \<Longrightarrow> consistent (play local s fs)"
  by (auto simp: consistent_def play_def start_playback_def Let_def)

lemma consistent_resume_song: "consistent s \<Longrightarrow> resume_song s = Inr s' \<Longrightarrow> consistent s'"
  by (auto simp: consistent_def resume_song_def split: if_splits option.splits)

lemma consistent_pause_song: "consistent s \<Longrightarrow> consistent (pause_song s)"
  by (auto simp: consistent_def pause_song_def)

lemma consistent_stop_reset: "consistent s \<Longrightarrow> stop s True = Inr s' \<Longrightarrow> consistent s'"
  by (auto simp: consistent_def stop_def resume_song_def Let_def split: if_splits option.splits)

lemma consistent_after_song: "consistent s \<Longrightarrow> consistent (after_song s)"
  by (auto simp: consistent_def after_song_def)

lemma consistent_play_all: "consistent s \<Longrightarrow> consistent (play_all audio s)"
proof (cases "playback_thread s")
  case LoopTop
  assume c: "consistent s"
  show ?thesis
  proof (cases "playlist_end s \<or> stopped s")
    case True
    with c LoopTop show ?thesis
      by (auto simp: play_all_def leave_loop_def consistent_def)
  next
    case False
    let ?s1 = "s\<lparr>update_index := True\<rparr>"
    have c1: "consistent ?s1" using c by (simp add: consistent_def)
    show ?thesis
    proof (cases "py_nth (if temp_playlist ?s1 \<noteq> [] then temp_playlist ?s1 else playlist ?s1) (index ?s1)")
      case (Inl e)
      with c LoopTop False show ?thesis
        by (simp add: play_all_def consistent_def)
    next
      case (Inr f)
      have "consistent (case play_song audio ?s1 f of
                Blocked s2 \<Rightarrow> s2\<lparr>playback_thread := WaitDone f\<rparr>
              | Returned s2 \<Rightarrow> after_song s2
              | Raised e s2 \<Rightarrow> s2\<lparr>playback_thread := Died e\<rparr>)"
      proof (cases "audio f")
        case Playable
        with c LoopTop show ?thesis by (simp add: play_song_def consistent_def)
      next
        case FileNotFoundError
        have "consistent (song_cleanup (remove_song ?s1 f))"
          using consistent_remove_song [OF c1, of f] LoopTop
          by (simp add: consistent_def song_cleanup_def remove_song_fields)
        with FileNotFoundError show ?thesis
          by (simp add: play_song_def consistent_after_song)
      next
        case WaveError
        have "consistent (song_cleanup (remove ?s1 (py_iter_str f)))"
          using consistent_remove [OF c1, of "py_iter_str f"] LoopTop
          by (simp add: consistent_def song_cleanup_def remove_fields)
        with WaveError show ?thesis
          by (simp add: play_song_def consistent_after_song)
      next
        case EOFError
        have "consistent (song_cleanup (remove ?s1 (py_iter_str f)))"
          using consistent_remove [OF c1, of "py_iter_str f"] LoopTop
          by (simp add: consistent_def song_cleanup_def remove_fields)
        with EOFError show ?thesis
          by (simp add: play_song_def consistent_after_song)
      next
        case OtherOSError
        with c LoopTop show ?thesis
          by (simp add: play_song_def consistent_def song_cleanup_def)
      qed
      with LoopTop False Inr show ?thesis
        by (simp add: play_all_def)
    qed
  qed
next
  case (WaitDone f)
  assume c: "consistent s"
  have "consistent (song_cleanup s\<lparr>playback_thread := LoopTop\<rparr>)"
    using c WaitDone by (simp add: consistent_def song_cleanup_def)
  then have "consistent (after_song (song_cleanup s\<lparr>playback_thread := LoopTop\<rparr>))"
    by (rule consistent_after_song)
  moreover have "after_song (song_cleanup s\<lparr>playback_thread := LoopTop\<rparr>)
      = (after_song (song_cleanup s))\<lparr>playback_thread := LoopTop\<rparr>"
    by (simp add: after_song_def valid_index_def song_cleanup_def)
  ultimately show ?thesis using WaitDone by (simp add: play_all_def)
qed (simp_all add: play_all_def)

lemma thread_join_step:
  "playback_thread s = LoopTop \<or> waiting (playback_thread s) \<Longrightarrow>
     thread_join audio s = thread_join audio (play_all audio s)"
  by (subst thread_join.simps) (cases "playback_thread s"; simp)

lemma thread_join_ended:
  "playback_thread s = Finished \<Longrightarrow> thread_join audio s = Some s"
  by (subst thread_join.simps) simp

lemma thread_join_stopped:
  assumes "playback_thread s = WaitDone f" "stopped s"
  shows "thread_join audio s
    = Some (leave_loop (if playlist_end s then (song_cleanup s)
                        else (song_cleanup s)\<lparr>update_index := True\<rparr>))"
proof -
  let ?a = "(song_cleanup s)\<lparr>playback_thread := LoopTop\<rparr>"
  let ?b = "leave_loop (if playlist_end s then song_cleanup s
                        else (song_cleanup s)\<lparr>update_index := True\<rparr>)"
  have 1: "play_all audio s = ?a"
    using assms by (simp add: play_all_def after_song_def song_cleanup_def)
  have 2: "play_all audio ?a = ?b"
    using assms by (simp add: play_all_def song_cleanup_def leave_loop_def)
  have "thread_join audio s = thread_join audio ?a"
    using thread_join_step [of s audio] assms 1 by simp
  also have "\<dots> = thread_join audio ?b"
    using thread_join_step [of ?a audio] 2 by simp
  also have "\<dots> = Some ?b"
    by (rule thread_join_ended) (simp add: leave_loop_def)
  finally show ?thesis .
qed

lemma consistent_switch_song:
  assumes c: "consistent s" and r: "switch_song local audio s amount = Some (Inr s')"
  shows "consistent s'"
proof (cases "current_song s = None \<or> \<not> valid_index s amount")
  case True
  with r c show ?thesis by (auto simp: switch_song_def split: if_splits)
next
  case False
  then have cs: "current_song s \<noteq> None" and v: "valid_index s amount" by simp_all
  from c cs obtain f where w: "playback_thread s = WaitDone f"
    by (cases "playback_thread s") (auto simp: consistent_def)
  let ?s1 = "s\<lparr>stopped := True, paused := False\<rparr>"
  have st: "stop s False = Inr ?s1"
    using cs by (auto simp: stop_def resume_song_def)
  have j: "thread_join audio ?s1 = Some (leave_loop (if playlist_end ?s1 then (song_cleanup ?s1)
                        else (song_cleanup ?s1)\<lparr>update_index := True\<rparr>))"
    by (rule thread_join_stopped [where f = f]) (simp_all add: w)
  let ?s2 = "leave_loop (if playlist_end ?s1 then (song_cleanup ?s1)
                        else (song_cleanup ?s1)\<lparr>update_index := True\<rparr>)"
  let ?s3 = "?s2\<lparr>index := index ?s2 + (if update_index ?s2 then amount else 0)\<rparr>"
  from r cs v st w j have s': "s' = play local ?s3 []"
    by (simp add: switch_song_def)
  have "consistent s'"
    unfolding s' using c
    by (auto simp: consistent_def play_def start_playback_def leave_loop_def song_cleanup_def)
  then show ?thesis .
qed

lemma consistent_run:
  assumes "consistent s" "run local audio s ins = Some (Inr s')"
  shows "consistent s'"
  using assms
  by (auto simp: run_def consistent_add consistent_play consistent_pause_song consistent_remove
      split: if_splits
      intro: consistent_resume_song consistent_stop_reset consistent_switch_song)

lemma reachable_consistent: "reachable s \<Longrightarrow> consistent s"
proof (induction rule: reachable.induct)
  case (start listing)
  show ?case by (simp add: consistent_def add_playlist init_player_def)
next
  case (instr s local audio ins s')
  then show ?case by (blast intro: consistent_run)
next
  case (playback s audio)
  from playback.IH show ?case by (rule consistent_play_all)
qed

section \<open>Play that does not start\<close>

text \<open>
  Claim C6. In a state the player can be in, a call of \<^verbatim>\<open>play\<close> that gives up, because
  none of the requested tracks is in the local storage, or because no track is requested
  and both playlists are empty, leaves the player exactly as it was: both playlists,
  the index and every flag, with no playback thread started. The play instruction does
  the same when the player is not paused.
\<close>

theorem play_abort_no_change:
  assumes "reachable s"
    and "(fs \<noteq> [] \<and> filter (\<lambda>x. x \<in> local) fs = []) \<or>
         (fs = [] \<and> playlist s = [] \<and> temp_playlist s = [])"
  shows "play local s fs = s
    \<and> (\<not> paused s \<longrightarrow> run local audio s \<lparr>command = ''play'', args = fs\<rparr> = Some (Inr s))"
proof -
  from reachable_consistent [OF assms(1)]
  have "\<not> thread_running s \<Longrightarrow> temp_playlist s = []"
    by (auto simp: consistent_def)
  with assms(2) have "play local s fs = s"
    by (auto simp: play_def)
  then show ?thesis by (simp add: run_def)
qed

theorem play_abort_no_change_witness:
  "reachable (add init_player [''a''])
   \<and> filter (\<lambda>x. x \<in> {}) [''x.wav''] = []
   \<and> play {} (add init_player [''a'']) [''x.wav''] = add init_player [''a'']
   \<and> run {} (\<lambda>f. Playable) (add init_player [''a'']) \<lparr>command = ''play'', args = [''x.wav'']\<rparr>
       = Some (Inr (add init_player [''a'']))
   \<and> play {} (add init_player []) [] = add init_player []"
proof -
  have r1: "reachable (add init_player [''a''])" and r2: "reachable (add init_player [])"
    by (rule reachable.start)+
  have h1: "([''x.wav''] \<noteq> [] \<and> filter (\<lambda>x. x \<in> {}) [''x.wav''] = []) \<or>
      ([''x.wav''] = [] \<and> playlist (add init_player [''a'']) = []
        \<and> temp_playlist (add init_player [''a'']) = [])"
    by simp
  have h2: "([] \<noteq> [] \<and> filter (\<lambda>x. x \<in> {}) [] = []) \<or>
      ([] = ([]::string list) \<and> playlist (add init_player []) = []
        \<and> temp_playlist (add init_player []) = [])"
    by (simp add: add_playlist init_player_def)
  have np: "\<not> paused (add init_player [''a''])"
    by (simp add: add_playlist init_player_def)
  from play_abort_no_change [OF r1 h1, of "\<lambda>f. Playable"] play_abort_no_change [OF r2 h2] r1 np
  show ?thesis by simp
qed

section \<open>Downloading\<close>

lemma recv_chunks_all:
  assumes "\<forall>d \<in> set ds. d \<noteq> []" "files c f = Some b"
  shows "recv_chunks f (ds @ [] # rs) c
    = Some (c\<lparr>files := (files c)(f \<mapsto> b @ concat ds), incoming := rs,
              passed := passed c @ concat (map (\<lambda>d. [Recv d, SendString ''ok'']) ds) @ [Recv []]\<rparr>)"
  using assms
proof (induction ds arbitrary: c b)
  case Nil
  then show ?case by (simp add: fun_upd_idem)
next
  case (Cons d ds)
  let ?c = "c\<lparr>files := (files c)(f \<mapsto> b @ d), incoming := ds @ [] # rs,
      passed := passed c @ [Recv d, SendString ''ok'']\<rparr>"
  have step: "recv_chunks f ((d # ds) @ [] # rs) c = recv_chunks f (ds @ [] # rs) ?c"
    using Cons.prems by (cases c) (simp add: send_string_def file_write_def)
  have f: "files ?c f = Some (b @ d)" by simp
  have ne: "\<forall>d \<in> set ds. d \<noteq> []" using Cons.prems by simp
  show ?case
    unfolding step Cons.IH [OF ne f] by (cases c) (simp add: fun_eq_iff)
qed










text \<open>
  Claim C8, amended. A track is not in the local storage, its file can be
  opened for appending, and the server replies with one or more non-empty chunks and
  then an empty one. Then the download makes a file whose content is the chunks one
  after the other in the order they came, and accepts the track. On the socket each
  chunk received is followed by the acknowledgement \<open>ok\<close> before the next one is
  received; nothing is sent after the empty chunk.
\<close>

theorem download_song_concat:
  assumes "files c f = None" "can_open c f" "chunks \<noteq> []" "\<forall>d \<in> set chunks. d \<noteq> []"
    "incoming c = chunks @ [] # rs"
  shows "download_song c f
    = Some (Inr (c\<lparr>files := (files c)(f \<mapsto> concat chunks), incoming := rs,
              passed := passed c @ SendJson ''down'' f
                 # concat (map (\<lambda>d. [Recv d, SendString ''ok'']) chunks) @ [Recv []]\<rparr>, True))
    \<and> download c [f]
    = Some (Inr (c\<lparr>files := (files c)(f \<mapsto> concat chunks), incoming := rs,
              passed := passed c @ SendJson ''down'' f
                 # concat (map (\<lambda>d. [Recv d, SendString ''ok'']) chunks) @ [Recv []]\<rparr>, [f]))"
proof -
  from assms(3) obtain d ds where ch: "chunks = d # ds" by (cases chunks) auto
  let ?c1 = "c\<lparr>incoming := ds @ [] # rs, passed := passed c @ [SendJson ''down'' f, Recv d]\<rparr>"
  let ?c2 = "?c1\<lparr>files := (files c)(f \<mapsto> [])\<rparr>"
  let ?c3 = "send_string (file_write ?c2 f d) ''ok''"
  have o: "open_ab ?c1 f = Inr ?c2"
    using assms(1,2) by (simp add: open_ab_def)
  have f3: "files ?c3 f = Some d"
    by (simp add: send_string_def file_write_def)
  have ne: "\<forall>d \<in> set ds. d \<noteq> []" and d: "d \<noteq> []" using assms(4) ch by simp_all
  have i3: "incoming ?c3 = ds @ [] # rs"
    by (simp add: send_string_def file_write_def)
  have r: "recv (send_json c ''down'' f) = Some (d, ?c1)"
    using assms(5) ch by (simp add: recv_def send_json_def)
  have 1: "download_song c f
    = Some (Inr (c\<lparr>files := (files c)(f \<mapsto> concat chunks), incoming := rs,
              passed := passed c @ SendJson ''down'' f
                 # concat (map (\<lambda>d. [Recv d, SendString ''ok'']) chunks) @ [Recv []]\<rparr>, True))"
    using assms(1) d r o recv_chunks_all [OF ne f3, of rs] i3
    by (cases c) (simp add: download_song_def ch send_string_def file_write_def)
  then show ?thesis by (simp add: download_def)
qed

theorem download_song_concat_witness:
  "files \<lparr>files = Map.empty, can_open = (\<lambda>f. CHR ''/'' \<notin> set f),
      incoming = [[1], [2, 3], [], [4]], passed = []\<rparr> ''x.wav'' = None
   \<and> can_open \<lparr>files = Map.empty, can_open = (\<lambda>f. CHR ''/'' \<notin> set f),
      incoming = [[1], [2, 3], [], [4]], passed = []\<rparr> ''x.wav''
   \<and> download \<lparr>files = Map.empty, can_open = (\<lambda>f. CHR ''/'' \<notin> set f),
      incoming = [[1], [2, 3], [], [4]], passed = []\<rparr> [''x.wav'']
      = Some (Inr (\<lparr>files = [''x.wav'' \<mapsto> [1, 2, 3]], can_open = (\<lambda>f. CHR ''/'' \<notin> set f),
               incoming = [[4]],
               passed = [SendJson ''down'' ''x.wav'', Recv [1], SendString ''ok'',
                         Recv [2, 3], SendString ''ok'', Recv []]\<rparr>, [''x.wav'']))"
proof -
  let ?c = "\<lparr>files = Map.empty, can_open = (\<lambda>f. CHR ''/'' \<notin> set f),
      incoming = [[1], [2, 3 :: 8 word], [], [4]], passed = []\<rparr>"
  have h1: "files ?c ''x.wav'' = None" by simp
  have h0: "can_open ?c ''x.wav''" by simp
  have h2: "[[1], [2, 3 :: 8 word]] \<noteq> []" by simp
  have h3: "\<forall>d \<in> set [[1], [2, 3 :: 8 word]]. d \<noteq> []" by simp
  have h4: "incoming ?c = [[1], [2, 3]] @ [] # [[4]]" by simp
  from download_song_concat [OF h1 h0 h2 h3 h4] h0 show ?thesis by simp
qed

text \<open>
  Claim C8 as stated, for every track that is not in the local storage, does not hold
  for a name that cannot be opened. The songs directory has no
  subdirectory, the track \<open>sub/x.wav\<close> is not in the local storage, and the server
  replies with the chunk \<open>1\<close> and then the empty chunk. After the first chunk
  \<^verbatim>\<open>open\<close> raises: no file is made, no \<open>ok\<close> is sent, the second reply is not read,
  and \<^verbatim>\<open>download\<close> returns no list.
\<close>

theorem download_unopenable_name_makes_no_file:
  "files \<lparr>files = Map.empty, can_open = (\<lambda>f. CHR ''/'' \<notin> set f),
      incoming = [[1], []], passed = []\<rparr> ''sub/x.wav'' = None
   \<and> download \<lparr>files = Map.empty, can_open = (\<lambda>f. CHR ''/'' \<notin> set f),
      incoming = [[1], []], passed = []\<rparr> [''sub/x.wav'']
      = Some (Inl (OSError, \<lparr>files = Map.empty, can_open = (\<lambda>f. CHR ''/'' \<notin> set f),
               incoming = [[]], passed = [SendJson ''down'' ''sub/x.wav'', Recv [1]]\<rparr>))
   \<and> \<not> (\<exists>c'. download \<lparr>files = Map.empty, can_open = (\<lambda>f. CHR ''/'' \<notin> set f),
              incoming = [[1], []], passed = []\<rparr> [''sub/x.wav'']
            = Some (Inr (c', [''sub/x.wav''])) \<and> files c' ''sub/x.wav'' = Some (concat [[1]]))"
  by (simp add: download_def download_song_def recv_def send_json_def open_ab_def)

section \<open>The playlist at startup\<close>

text \<open>
  Claim C10. At startup \<^verbatim>\<open>main\<close> makes the songs directory when it is absent and gives
  the new player the listing of that directory as its playlist, before any instruction
  is taken from the queue: the entries of the directory when it was there, nothing when
  it had to be made.
\<close>

theorem main_playlist_is_listing:
  "main d = (case d of
      Absent \<Rightarrow> Inr (Directory [], init_player)
    | Directory es \<Rightarrow> Inr (Directory es, init_player\<lparr>playlist := es\<rparr>)
    | NotADirectory \<Rightarrow> Inl FileExistsError)"
  by (cases d) (simp_all add: main_def mkdir_exist_ok_def listdir_def add_playlist init_player_def)

end
